theory Spec2Isabelle
  imports Complex_Main
begin

section \<open>Weekly KPI reporter: period resolution and KPI aggregation (transform.py)\<close>

text \<open>
  The development embeds the two functions of \<^verbatim>\<open>transform.py\<close>,
  \<^verbatim>\<open>compute_date_range\<close> and \<^verbatim>\<open>compute_kpis\<close>, together with the
  pandas operations they call.

  \<^item> A \<^verbatim>\<open>pd.Timestamp\<close> is its number of nanoseconds since the epoch, an \<open>int\<close>;
    \<^verbatim>\<open>normalize\<close> floors it to midnight and \<^verbatim>\<open>pd.Timedelta(days=k)\<close> is
    \<open>k * day_ns\<close>. pandas keeps both in 64 bits: where \<^verbatim>\<open>compute_date_range\<close>
    builds a \<^verbatim>\<open>Timedelta\<close> from \<^verbatim>\<open>window_days\<close> and subtracts it (line 54), a
    value outside the 64-bit range is an error of the model, as it is an exception of
    pandas. The timestamps of the input and their midnights are taken to be
    representable.
  \<^item> A data frame is the list of its rows, a row is a record of its columns.
  \<^item> Amounts, means, sums and ratios are \<open>real\<close>: the arithmetic of the amount column
    is idealised. Neither the rounding and overflow of a float column nor the 64-bit
    wrap-around of a sum over an all-integer amount column is modelled.
  \<^item> A raised exception, and a division by zero, is an \<open>Inl\<close> result.
\<close>

subsection \<open>Timestamps\<close>

type_synonym timestamp = int

definition day_ns :: int where
  "day_ns = 86400000000000"

text \<open>\<^verbatim>\<open>Timestamp.normalize()\<close>: the midnight of the timestamp's calendar day.\<close>

definition normalize :: "timestamp \<Rightarrow> timestamp" where
  "normalize t = t - t mod day_ns"

text \<open>\<^verbatim>\<open>pd.Timedelta(days=k)\<close>.\<close>

definition Timedelta_days :: "int \<Rightarrow> int" where
  "Timedelta_days k = k * day_ns"

text \<open>\<^verbatim>\<open>Timedelta.days\<close>: the whole days of a difference of timestamps, floored.\<close>

definition days :: "int \<Rightarrow> int" where
  "days delta = delta div day_ns"

text \<open>
  \<^verbatim>\<open>pd.date_range(start, end, freq="D")\<close>: \<open>start\<close>, \<open>start + 1 day\<close>, ... as long as
  the value does not pass \<open>end\<close>; empty when \<open>end < start\<close>.
\<close>

definition date_range :: "timestamp \<Rightarrow> timestamp \<Rightarrow> timestamp list" where
  "date_range start_date end_date =
     (if end_date < start_date then []
      else map (\<lambda>k. start_date + Timedelta_days (int k))
             [0 ..< Suc (nat (days (end_date - start_date)))])"

subsection \<open>Rows of the input and output tables\<close>

text \<open>users: \<^verbatim>\<open>user_id,registered_at,source\<close>.\<close>

record user_row =
  user_id :: nat
  registered_at :: timestamp
  source :: string

text \<open>
  payments: \<^verbatim>\<open>payment_id,user_id,amount,currency,paid_at\<close>. The column
  \<^verbatim>\<open>user_id\<close> of a payment is the field \<open>payer_id\<close>, since a field name belongs to
  one record.
\<close>

record payment_row =
  payment_id :: nat
  payer_id :: nat
  amount :: real
  currency :: string
  paid_at :: timestamp

text \<open>
  A row of \<^verbatim>\<open>daily_df\<close>. Its columns \<^verbatim>\<open>conversion\<close> and \<^verbatim>\<open>avg_check\<close> are
  the fields \<open>day_conversion\<close> and \<open>day_avg_check\<close>; the summary keeps the plain names.
\<close>

record daily_row =
  date :: timestamp
  new_users :: nat
  paying_users :: nat
  payments_count :: nat
  revenue :: real
  day_conversion :: real
  day_avg_check :: real

record SummaryKPI =
  start_date :: timestamp
  end_date :: timestamp
  total_new_users :: nat
  total_paying_users :: nat
  total_revenue :: real
  conversion :: real
  avg_check :: "real option"

text \<open>
  \<open>NoData\<close> is the \<^verbatim>\<open>ValueError\<close> of line 51, \<open>ZeroDivision\<close> a division by a
  zero count, \<open>OutOfBounds\<close> the exception of pandas for a \<^verbatim>\<open>Timedelta\<close> or a
  \<^verbatim>\<open>Timestamp\<close> that does not fit 64 bits (\<^verbatim>\<open>OutOfBoundsTimedelta\<close>,
  \<^verbatim>\<open>OutOfBoundsDatetime\<close>, \<^verbatim>\<open>OverflowError\<close>).
\<close>

datatype error = NoData | ZeroDivision | OutOfBounds

subsection \<open>The pandas operations used\<close>

text \<open>\<^verbatim>\<open>Series.nunique()\<close>: the number of distinct values.\<close>

definition nunique :: "'a list \<Rightarrow> nat" where
  "nunique xs = length (remdups xs)"

text \<open>
  \<^verbatim>\<open>Series.mean()\<close>. The source calls it on non-empty series only (both calls are
  guarded by \<^verbatim>\<open>not ... .empty\<close>).
\<close>

definition mean :: "real list \<Rightarrow> real" where
  "mean xs = sum_list xs / real (length xs)"

text \<open>
  \<^verbatim>\<open>df.groupby(key)\<close>: the groups, keyed by the distinct values of the key column
  in ascending order; \<^verbatim>\<open>[col].f()\<close> aggregates each group; \<^verbatim>\<open>reindex\<close> looks
  every label of the new index up and fills the missing ones.
\<close>

definition groupby :: "('r \<Rightarrow> timestamp) \<Rightarrow> 'r list \<Rightarrow> (timestamp \<times> 'r list) list" where
  "groupby key rows =
     map (\<lambda>k. (k, filter (\<lambda>r. key r = k) rows)) (sort (remdups (map key rows)))"

definition agg :: "('r list \<Rightarrow> 'v) \<Rightarrow> (timestamp \<times> 'r list) list \<Rightarrow> (timestamp \<times> 'v) list" where
  "agg f groups = map (\<lambda>(k, g). (k, f g)) groups"

definition reindex :: "(timestamp \<times> 'v) list \<Rightarrow> timestamp list \<Rightarrow> 'v \<Rightarrow> 'v list" where
  "reindex series idx fill_value =
     map (\<lambda>d. case map_of series d of Some v \<Rightarrow> v | None \<Rightarrow> fill_value) idx"

text \<open>
  The division \<^verbatim>\<open>/\<close> of two counts. A zero divisor is a \<^verbatim>\<open>ZeroDivisionError\<close>
  for Python integers and a warning with a non-finite result for numpy integers; the
  model reports both as \<open>Inl ZeroDivision\<close>.
\<close>

definition true_div :: "nat \<Rightarrow> nat \<Rightarrow> error + real" where
  "true_div a b = (if b = 0 then Inl ZeroDivision else Inr (real a / real b))"

subsection \<open>compute_date_range\<close>

text \<open>
  The values of a \<^verbatim>\<open>Timestamp\<close> and of a \<^verbatim>\<open>Timedelta\<close>: signed 64-bit counts of
  nanoseconds, the least one reserved for \<^verbatim>\<open>NaT\<close>.
\<close>

definition in_bounds :: "int \<Rightarrow> bool" where
  "in_bounds v \<longleftrightarrow> - (2 ^ 63) < v \<and> v < 2 ^ 63"

text \<open>\<^verbatim>\<open>pd.Timedelta(days=k)\<close> as line 54 builds it: it raises when out of bounds.\<close>

definition Timedelta_of_days :: "int \<Rightarrow> error + int" where
  "Timedelta_of_days k =
     (if in_bounds (Timedelta_days k) then Inr (Timedelta_days k) else Inl OutOfBounds)"

text \<open>\<^verbatim>\<open>Timestamp - Timedelta\<close>: it raises when the difference is out of bounds.\<close>

definition Timestamp_minus :: "timestamp \<Rightarrow> int \<Rightarrow> error + timestamp" where
  "Timestamp_minus t delta =
     (if in_bounds (t - delta) then Inr (t - delta) else Inl OutOfBounds)"

text \<open>
  The arguments \<^verbatim>\<open>start_date\<close> and \<^verbatim>\<open>end_date\<close> are \<^verbatim>\<open>str | None\<close>; the model
  takes the timestamp that \<^verbatim>\<open>pd.to_datetime\<close> parses the string to. The maximum of
  a column is taken for a non-empty frame only.
\<close>

definition compute_date_range ::
  "user_row list \<Rightarrow> payment_row list \<Rightarrow> timestamp option \<Rightarrow> timestamp option \<Rightarrow> int
     \<Rightarrow> error + (timestamp \<times> timestamp)" where
  "compute_date_range users payments start_opt end_opt window_days =
     (case (start_opt, end_opt) of
        (Some start, Some end') \<Rightarrow> Inr (normalize start, normalize end')
      | _ \<Rightarrow>
        (let all_dates =
               (if users \<noteq> [] then [Max (set (map registered_at users))] else []) @
               (if payments \<noteq> [] then [Max (set (map paid_at payments))] else [])
         in if all_dates = [] then Inl NoData
            else
              (let last_date = normalize (Max (set all_dates))
               in case Timedelta_of_days (window_days - 1) of
                    Inl err \<Rightarrow> Inl err
                  | Inr delta \<Rightarrow>
                    (case Timestamp_minus last_date delta of
                       Inl err \<Rightarrow> Inl err
                     | Inr first_date \<Rightarrow> Inr (first_date, last_date)))))"

subsection \<open>compute_kpis\<close>

text \<open>The two filters by range (lines 72 to 77): the raw timestamp against both bounds.\<close>

definition users_period :: "user_row list \<Rightarrow> timestamp \<Rightarrow> timestamp \<Rightarrow> user_row list" where
  "users_period users start end' =
     filter (\<lambda>u. registered_at u \<ge> start \<and> registered_at u \<le> end') users"

definition payments_period ::
  "payment_row list \<Rightarrow> timestamp \<Rightarrow> timestamp \<Rightarrow> payment_row list" where
  "payments_period payments start end' =
     filter (\<lambda>p. paid_at p \<ge> start \<and> paid_at p \<le> end') payments"

text \<open>The added column \<^verbatim>\<open>"date"\<close> of each filtered frame (lines 80 and 81).\<close>

definition user_date :: "user_row \<Rightarrow> timestamp" where
  "user_date u = normalize (registered_at u)"

definition payment_date :: "payment_row \<Rightarrow> timestamp" where
  "payment_date p = normalize (paid_at p)"

text \<open>The four grouped columns (lines 87 to 104), over \<open>all_dates\<close>.\<close>

definition new_users_by_day :: "user_row list \<Rightarrow> timestamp list \<Rightarrow> nat list" where
  "new_users_by_day users_p all_dates =
     reindex (agg (\<lambda>g. nunique (map user_id g)) (groupby user_date users_p)) all_dates 0"

definition paying_users_by_day :: "payment_row list \<Rightarrow> timestamp list \<Rightarrow> nat list" where
  "paying_users_by_day payments_p all_dates =
     reindex (agg (\<lambda>g. nunique (map payer_id g)) (groupby payment_date payments_p)) all_dates 0"

definition payments_count_by_day :: "payment_row list \<Rightarrow> timestamp list \<Rightarrow> nat list" where
  "payments_count_by_day payments_p all_dates =
     reindex (agg (\<lambda>g. nunique (map payment_id g)) (groupby payment_date payments_p)) all_dates 0"

definition revenue_by_day :: "payment_row list \<Rightarrow> timestamp list \<Rightarrow> real list" where
  "revenue_by_day payments_p all_dates =
     reindex (agg (\<lambda>g. sum_list (map amount g)) (groupby payment_date payments_p)) all_dates 0"

text \<open>
  The loop of lines 107 to 114, over the pairs \<open>(new_u, pay_u)\<close> of the two columns
  read at each date; an error of a division ends it.
\<close>

fun conversion_by_day :: "(nat \<times> nat) list \<Rightarrow> error + real list" where
  "conversion_by_day [] = Inr []"
| "conversion_by_day ((new_u, pay_u) # rest) =
     (case (if new_u > 0 then true_div pay_u new_u else Inr 0) of
        Inl err \<Rightarrow> Inl err
      | Inr c \<Rightarrow>
        (case conversion_by_day rest of
           Inl err \<Rightarrow> Inl err
         | Inr cs \<Rightarrow> Inr (c # cs)))"

text \<open>The loop of lines 119 to 126.\<close>

definition avg_check_by_day :: "payment_row list \<Rightarrow> timestamp list \<Rightarrow> real list" where
  "avg_check_by_day payments_p all_dates =
     map (\<lambda>d. let day_payments = map amount (filter (\<lambda>p. payment_date p = d) payments_p)
              in if day_payments \<noteq> [] then mean day_payments else 0) all_dates"

text \<open>
  The frame of lines 130 to 140, row \<open>i\<close> from entry \<open>i\<close> of every column (all columns
  have the length of \<open>all_dates\<close>).
\<close>

definition daily_frame ::
  "timestamp list \<Rightarrow> nat list \<Rightarrow> nat list \<Rightarrow> nat list \<Rightarrow> real list \<Rightarrow> real list \<Rightarrow> real list
     \<Rightarrow> daily_row list" where
  "daily_frame all_dates nu pu pc rv cv ac =
     map (\<lambda>i. \<lparr>date = all_dates ! i, new_users = nu ! i, paying_users = pu ! i,
               payments_count = pc ! i, revenue = rv ! i, day_conversion = cv ! i,
               day_avg_check = ac ! i\<rparr>) [0 ..< length all_dates]"

definition compute_kpis ::
  "user_row list \<Rightarrow> payment_row list \<Rightarrow> timestamp \<Rightarrow> timestamp
     \<Rightarrow> error + (daily_row list \<times> SummaryKPI)" where
  "compute_kpis users payments start end' =
     (let users_p = users_period users start end';
          payments_p = payments_period payments start end';
          all_dates = date_range start end';
          nu = new_users_by_day users_p all_dates;
          pu = paying_users_by_day payments_p all_dates;
          pc = payments_count_by_day payments_p all_dates;
          rv = revenue_by_day payments_p all_dates
      in case conversion_by_day (zip nu pu) of
           Inl err \<Rightarrow> Inl err
         | Inr cv \<Rightarrow>
           (let ac = avg_check_by_day payments_p all_dates;
                daily_df = daily_frame all_dates nu pu pc rv cv ac;
                total_new = sum_list nu;
                total_paying = nunique (map payer_id payments_p);
                total_rev = sum_list rv;
                avg_check_overall =
                  (if payments_p \<noteq> [] then Some (mean (map amount payments_p)) else None)
            in case (if total_new > 0 then true_div total_paying total_new else Inr 0) of
                 Inl err \<Rightarrow> Inl err
               | Inr conversion_overall \<Rightarrow>
                 Inr (daily_df,
                      \<lparr>start_date = start, end_date = end',
                       total_new_users = total_new, total_paying_users = total_paying,
                       total_revenue = total_rev, conversion = conversion_overall,
                       avg_check = avg_check_overall\<rparr>)))"

subsection \<open>Example data\<close>

text \<open>
  Midnights of March 2025 as nanoseconds since the epoch, and the frames of the
  scenarios used to run the functions on concrete inputs.
\<close>

abbreviation mar06 :: timestamp where "mar06 \<equiv> 1741219200000000000"
abbreviation mar10 :: timestamp where "mar10 \<equiv> 1741564800000000000"
abbreviation mar11 :: timestamp where "mar11 \<equiv> 1741651200000000000"
abbreviation mar12 :: timestamp where "mar12 \<equiv> 1741737600000000000"
abbreviation mar16 :: timestamp where "mar16 \<equiv> 1742083200000000000"

text \<open>Two users registered on 10 and 11 March; payments on 10 and 12 March.\<close>

abbreviation users_A :: "user_row list" where
  "users_A \<equiv>
     [\<lparr>user_id = 101, registered_at = mar10, source = ''ads''\<rparr>,
      \<lparr>user_id = 102, registered_at = mar11, source = ''seo''\<rparr>]"

abbreviation payments_A :: "payment_row list" where
  "payments_A \<equiv>
     [\<lparr>payment_id = 5001, payer_id = 101, amount = 100, currency = ''USD'', paid_at = mar10\<rparr>,
      \<lparr>payment_id = 5002, payer_id = 102, amount = 50, currency = ''USD'', paid_at = mar12\<rparr>]"


abbreviation users_twice :: "user_row list" where
  "users_twice \<equiv>
     [\<lparr>user_id = 101, registered_at = 1741608000000000000, source = ''ads''\<rparr>,
      \<lparr>user_id = 101, registered_at = 1741694400000000000, source = ''ads''\<rparr>]"

text \<open>A registration at 23:59 and a payment at 12:00, both on 16 March.\<close>

abbreviation users_late :: "user_row list" where
  "users_late \<equiv> [\<lparr>user_id = 101, registered_at = 1742169540000000000, source = ''ads''\<rparr>]"

abbreviation payments_noon :: "payment_row list" where
  "payments_noon \<equiv>
     [\<lparr>payment_id = 5001, payer_id = 101, amount = 100, currency = ''USD'',
       paid_at = 1742126400000000000\<rparr>]"

section \<open>Properties of the pandas operations\<close>

lemma day_ns_pos: "0 < day_ns"
  by (simp add: day_ns_def)

lemma normalize_le: "normalize t \<le> t"
  using day_ns_pos by (simp add: normalize_def)

lemma normalize_eq_div: "normalize t = (t div day_ns) * day_ns"
  by (simp add: normalize_def minus_mod_eq_div_mult)

lemma normalize_mono: "a \<le> b \<Longrightarrow> normalize a \<le> normalize b"
  using day_ns_pos by (simp add: normalize_eq_div zdiv_mono1)

lemma map_of_agg_groupby:
  "map_of (agg f (groupby key rows)) d =
     (if d \<in> key ` set rows then Some (f (filter (\<lambda>r. key r = d) rows)) else None)"
proof -
  have "agg f (groupby key rows) =
          map (\<lambda>k. (k, f (filter (\<lambda>r. key r = k) rows))) (sort (remdups (map key rows)))"
    by (simp add: agg_def groupby_def)
  then show ?thesis
    by (simp add: map_of_map_restrict restrict_map_def)
qed

lemma reindex_agg_groupby:
  assumes "f [] = fill_value"
  shows "reindex (agg f (groupby key rows)) idx fill_value =
           map (\<lambda>d. f (filter (\<lambda>r. key r = d) rows)) idx"
proof -
  have "filter (\<lambda>r. key r = d) rows = []" if "d \<notin> key ` set rows" for d
    using that by (auto simp: filter_empty_conv)
  then show ?thesis
    using assms by (auto simp: reindex_def map_of_agg_groupby)
qed

lemma nunique_Nil: "nunique [] = 0"
  by (simp add: nunique_def)

lemma nunique_card: "nunique xs = card (set xs)"
  by (simp add: nunique_def length_remdups_card_conv)

lemma new_users_by_day_eq:
  "new_users_by_day users_p all_dates =
     map (\<lambda>d. nunique (map user_id (filter (\<lambda>u. user_date u = d) users_p))) all_dates"
  unfolding new_users_by_day_def by (rule reindex_agg_groupby) (simp add: nunique_Nil)

lemma paying_users_by_day_eq:
  "paying_users_by_day payments_p all_dates =
     map (\<lambda>d. nunique (map payer_id (filter (\<lambda>p. payment_date p = d) payments_p))) all_dates"
  unfolding paying_users_by_day_def by (rule reindex_agg_groupby) (simp add: nunique_Nil)

lemma payments_count_by_day_eq:
  "payments_count_by_day payments_p all_dates =
     map (\<lambda>d. nunique (map payment_id (filter (\<lambda>p. payment_date p = d) payments_p))) all_dates"
  unfolding payments_count_by_day_def by (rule reindex_agg_groupby) (simp add: nunique_Nil)

lemma revenue_by_day_eq:
  "revenue_by_day payments_p all_dates =
     map (\<lambda>d. sum_list (map amount (filter (\<lambda>p. payment_date p = d) payments_p))) all_dates"
  unfolding revenue_by_day_def by (rule reindex_agg_groupby) simp

lemma conversion_by_day_Inr:
  "conversion_by_day xs = Inr (map (\<lambda>(new_u, pay_u). if new_u > 0 then real pay_u / real new_u else 0) xs)"
  by (induction xs rule: conversion_by_day.induct) (simp_all add: true_div_def)

lemma compute_kpis_Inr:
  "compute_kpis users payments start end' =
     Inr (daily_frame (date_range start end')
            (new_users_by_day (users_period users start end') (date_range start end'))
            (paying_users_by_day (payments_period payments start end') (date_range start end'))
            (payments_count_by_day (payments_period payments start end') (date_range start end'))
            (revenue_by_day (payments_period payments start end') (date_range start end'))
            (map (\<lambda>(new_u, pay_u). if new_u > 0 then real pay_u / real new_u else 0)
               (zip (new_users_by_day (users_period users start end') (date_range start end'))
                    (paying_users_by_day (payments_period payments start end') (date_range start end'))))
            (avg_check_by_day (payments_period payments start end') (date_range start end')),
          \<lparr>start_date = start, end_date = end',
           total_new_users = sum_list (new_users_by_day (users_period users start end') (date_range start end')),
           total_paying_users = nunique (map payer_id (payments_period payments start end')),
           total_revenue = sum_list (revenue_by_day (payments_period payments start end') (date_range start end')),
           conversion =
             (if sum_list (new_users_by_day (users_period users start end') (date_range start end')) > 0
              then real (nunique (map payer_id (payments_period payments start end'))) /
                   real (sum_list (new_users_by_day (users_period users start end') (date_range start end')))
              else 0),
           avg_check =
             (if payments_period payments start end' \<noteq> []
              then Some (mean (map amount (payments_period payments start end'))) else None)\<rparr>)"
  by (simp add: compute_kpis_def Let_def conversion_by_day_Inr true_div_def)

lemma daily_frame_of_maps:
  "daily_frame ds (map f1 ds) (map f2 ds) (map f3 ds) (map f4 ds) (map f5 ds) (map f6 ds) =
     map (\<lambda>d. \<lparr>date = d, new_users = f1 d, paying_users = f2 d, payments_count = f3 d,
                revenue = f4 d, day_conversion = f5 d, day_avg_check = f6 d\<rparr>) ds"
  unfolding daily_frame_def by (rule nth_equalityI) simp_all

lemma conversion_column_eq:
  "map (\<lambda>(new_u, pay_u). if new_u > 0 then real pay_u / real new_u else 0)
     (zip (map f1 ds) (map f2 ds)) =
   map (\<lambda>d. if f1 d > 0 then real (f2 d) / real (f1 d) else 0) ds"
  by (induction ds) simp_all

lemma avg_check_by_day_eq:
  "avg_check_by_day payments_p all_dates =
     map (\<lambda>d. if filter (\<lambda>p. payment_date p = d) payments_p \<noteq> []
              then mean (map amount (filter (\<lambda>p. payment_date p = d) payments_p)) else 0) all_dates"
  by (simp add: avg_check_by_day_def Let_def)

lemma compute_kpis_rows:
  "compute_kpis users payments start end' =
     Inr (map (\<lambda>d.
            \<lparr>date = d,
             new_users = nunique (map user_id (filter (\<lambda>u. user_date u = d) (users_period users start end'))),
             paying_users = nunique (map payer_id (filter (\<lambda>p. payment_date p = d) (payments_period payments start end'))),
             payments_count = nunique (map payment_id (filter (\<lambda>p. payment_date p = d) (payments_period payments start end'))),
             revenue = sum_list (map amount (filter (\<lambda>p. payment_date p = d) (payments_period payments start end'))),
             day_conversion =
               (if nunique (map user_id (filter (\<lambda>u. user_date u = d) (users_period users start end'))) > 0
                then real (nunique (map payer_id (filter (\<lambda>p. payment_date p = d) (payments_period payments start end')))) /
                     real (nunique (map user_id (filter (\<lambda>u. user_date u = d) (users_period users start end'))))
                else 0),
             day_avg_check =
               (if filter (\<lambda>p. payment_date p = d) (payments_period payments start end') \<noteq> []
                then mean (map amount (filter (\<lambda>p. payment_date p = d) (payments_period payments start end')))
                else 0)\<rparr>) (date_range start end'),
          \<lparr>start_date = start, end_date = end',
           total_new_users = sum_list (new_users_by_day (users_period users start end') (date_range start end')),
           total_paying_users = nunique (map payer_id (payments_period payments start end')),
           total_revenue = sum_list (revenue_by_day (payments_period payments start end') (date_range start end')),
           conversion =
             (if sum_list (new_users_by_day (users_period users start end') (date_range start end')) > 0
              then real (nunique (map payer_id (payments_period payments start end'))) /
                   real (sum_list (new_users_by_day (users_period users start end') (date_range start end')))
              else 0),
           avg_check =
             (if payments_period payments start end' \<noteq> []
              then Some (mean (map amount (payments_period payments start end'))) else None)\<rparr>)"
  unfolding compute_kpis_Inr
  unfolding new_users_by_day_eq paying_users_by_day_eq payments_count_by_day_eq
    revenue_by_day_eq avg_check_by_day_eq conversion_column_eq daily_frame_of_maps
  by (rule refl)

lemma length_date_range:
  "start \<le> end' \<Longrightarrow> length (date_range start end') = Suc (nat (days (end' - start)))"
  by (simp add: date_range_def)

lemma date_range_empty: "end' < start \<Longrightarrow> date_range start end' = []"
  by (simp add: date_range_def)

lemma date_range_eq_map:
  "start \<le> end' \<Longrightarrow> date_range start end' =
     map (\<lambda>k. start + Timedelta_days (int k)) [0 ..< length (date_range start end')]"
  by (simp add: date_range_def)

lemma strict_sorted_date_range: "sorted_wrt (<) (date_range start end')"
proof -
  have "sorted_wrt (<) (map (\<lambda>k. start + Timedelta_days (int k)) [0 ..< n])" for n
    using day_ns_pos by (simp add: sorted_wrt_map Timedelta_days_def sorted_wrt_upt)
  then show ?thesis
    by (simp add: date_range_def del: upt_Suc)
qed

lemma distinct_date_range: "distinct (date_range start end')"
  using strict_sorted_date_range [of start end'] by (simp add: strict_sorted_iff)

lemma hd_date_range: "start \<le> end' \<Longrightarrow> hd (date_range start end') = start"
  by (simp add: date_range_def Timedelta_days_def hd_conv_nth del: upt_Suc)

lemma normalized_iff: "normalize t = t \<longleftrightarrow> day_ns dvd t"
  by (auto simp: normalize_def mod_eq_0_iff_dvd)

lemma last_date_range:
  assumes "start \<le> end'" "normalize start = start" "normalize end' = end'"
  shows "last (date_range start end') = end'"
proof -
  from assms have "day_ns dvd (end' - start)"
    by (simp add: normalized_iff)
  then have "days (end' - start) * day_ns = end' - start"
    by (simp add: days_def)
  moreover have "0 \<le> days (end' - start)"
    using assms(1) day_ns_pos by (simp add: days_def pos_imp_zdiv_nonneg_iff)
  ultimately show ?thesis
    using assms(1) by (simp add: date_range_def last_map Timedelta_days_def del: upt_Suc)
qed

lemma date_range_normalized:
  "normalize start = start \<Longrightarrow> d \<in> set (date_range start end') \<Longrightarrow> normalize d = d"
  by (auto simp: date_range_def normalized_iff Timedelta_days_def split: if_splits)

text \<open>
  The period filters keep a record exactly when its raw timestamp lies between the
  bounds. Every record kept has its date between the dates of the bounds, but a record
  of the end date later than midnight is not kept when the end is a midnight.
\<close>

lemma users_period_iff:
  "u \<in> set (users_period users start end') \<longleftrightarrow>
     u \<in> set users \<and> start \<le> registered_at u \<and> registered_at u \<le> end'"
  by (auto simp: users_period_def)

lemma payments_period_iff:
  "p \<in> set (payments_period payments start end') \<longleftrightarrow>
     p \<in> set payments \<and> start \<le> paid_at p \<and> paid_at p \<le> end'"
  by (auto simp: payments_period_def)

lemma users_period_dates:
  "u \<in> set (users_period users start end') \<Longrightarrow>
     normalize start \<le> user_date u \<and> user_date u \<le> normalize end'"
  by (simp add: users_period_iff user_date_def normalize_mono)

lemma payments_period_dates:
  "p \<in> set (payments_period payments start end') \<Longrightarrow>
     normalize start \<le> payment_date p \<and> payment_date p \<le> normalize end'"
  by (simp add: payments_period_iff payment_date_def normalize_mono)

lemma users_period_end_day:
  assumes "user_date u = end'" and "registered_at u \<noteq> end'"
  shows "u \<notin> set (users_period users start end')"
proof -
  from assms have "end' < registered_at u"
    using normalize_le [of "registered_at u"] by (simp add: user_date_def)
  then show ?thesis
    by (simp add: users_period_iff)
qed

lemma payments_period_end_day:
  assumes "payment_date p = end'" and "paid_at p \<noteq> end'"
  shows "p \<notin> set (payments_period payments start end')"
proof -
  from assms have "end' < paid_at p"
    using normalize_le [of "paid_at p"] by (simp add: payment_date_def)
  then show ?thesis
    by (simp add: payments_period_iff)
qed

lemma filter_date_empty:
  "\<forall>r \<in> set rows. key r \<noteq> d \<Longrightarrow> filter (\<lambda>r. key r = d) rows = []"
  by (simp add: filter_empty_conv)

lemma Max_two_columns:
  assumes "xs \<noteq> []" "ys \<noteq> []"
  shows "Max (set [Max (set xs), Max (set ys)]) = Max (set xs \<union> set ys)"
  using assms by (simp add: Max_Un max.commute)

text \<open>
  The records whose date is a given midnight are those of the 24 hours from it; every
  date of a range that starts at a midnight is a midnight.
\<close>

lemma normalize_eq_iff:
  assumes "d mod day_ns = 0"
  shows "normalize t = d \<longleftrightarrow> d \<le> t \<and> t < d + day_ns"
proof
  assume "normalize t = d"
  then show "d \<le> t \<and> t < d + day_ns"
    using day_ns_pos pos_mod_bound [of day_ns t] pos_mod_sign [of day_ns t]
    by (auto simp: normalize_def)
next
  assume bounds: "d \<le> t \<and> t < d + day_ns"
  from assms obtain k where d: "d = k * day_ns"
    by (metis mod_eq_0_iff_dvd dvd_def mult.commute)
  from bounds have "t div day_ns = k"
    using day_ns_pos unfolding d
    by (intro int_div_pos_eq [where r = "t - k * day_ns"]) (auto simp: algebra_simps)
  then show "normalize t = d"
    by (simp add: normalize_eq_div d)
qed

lemma date_range_midnights:
  "start mod day_ns = 0 \<Longrightarrow> d \<in> set (date_range start end') \<Longrightarrow> d mod day_ns = 0"
  by (auto simp: date_range_def Timedelta_days_def split: if_splits)


lemma users_of_day:
  assumes "d mod day_ns = 0"
  shows "{u \<in> set (users_period users start end'). user_date u = d} =
     {u \<in> set users. start \<le> registered_at u \<and> registered_at u \<le> end' \<and>
                       d \<le> registered_at u \<and> registered_at u < d + day_ns}"
  by (auto simp: users_period_iff user_date_def normalize_eq_iff [OF assms])


lemma users_of_period:
  "set (users_period users start end') =
     {u \<in> set users. start \<le> registered_at u \<and> registered_at u \<le> end'}"
  by (auto simp: users_period_iff)

text \<open>The inferred window, with the two checks of line 54.\<close>

lemma compute_date_range_window:
  assumes "users \<noteq> [] \<or> payments \<noteq> []"
  shows "compute_date_range users payments None None window_days =
     (if in_bounds (Timedelta_days (window_days - 1)) \<and>
         in_bounds (normalize (Max (registered_at ` set users \<union> paid_at ` set payments)) -
                    Timedelta_days (window_days - 1))
      then Inr (normalize (Max (registered_at ` set users \<union> paid_at ` set payments)) -
                  Timedelta_days (window_days - 1),
                normalize (Max (registered_at ` set users \<union> paid_at ` set payments)))
      else Inl OutOfBounds)"
proof (cases "users = []")
  case True
  with assms show ?thesis
    by (simp add: compute_date_range_def Timedelta_of_days_def Timestamp_minus_def)
next
  case users: False
  show ?thesis
  proof (cases "payments = []")
    case True
    with users show ?thesis
      by (simp add: compute_date_range_def Timedelta_of_days_def Timestamp_minus_def)
  next
    case False
    with users show ?thesis
      using Max_two_columns [of "map registered_at users" "map paid_at payments"]
      by (simp add: compute_date_range_def Timedelta_of_days_def Timestamp_minus_def)
  qed
qed

lemma compute_kpis_dates:
  "compute_kpis users payments start end' = Inr (daily_df, summary) \<Longrightarrow>
     map date daily_df = date_range start end'"
  unfolding compute_kpis_rows by (auto simp: comp_def)

section \<open>The example scenarios, run\<close>

lemmas kpi_eval =
  users_period_def payments_period_def user_date_def payment_date_def normalize_def day_ns_def
  nunique_def mean_def

lemma date_range_mar10_mar12: "date_range mar10 mar12 = [mar10, mar11, mar12]"
  by (simp add: date_range_def days_def day_ns_def Timedelta_days_def upt_conv_Cons)

lemma date_range_mar10_mar16:
  "date_range mar10 mar16 =
     [mar10, mar11, mar12, 1741824000000000000, 1741910400000000000, 1741996800000000000, mar16]"
  by (simp add: date_range_def days_def day_ns_def Timedelta_days_def upt_conv_Cons)

text \<open>Scenario A of the specification.\<close>

lemma scenario_A:
  "compute_kpis users_A payments_A mar10 mar12 =
   Inr ([\<lparr>date = mar10, new_users = 1, paying_users = 1, payments_count = 1,
           revenue = 100, day_conversion = 1, day_avg_check = 100\<rparr>,
         \<lparr>date = mar11, new_users = 1, paying_users = 0, payments_count = 0,
           revenue = 0, day_conversion = 0, day_avg_check = 0\<rparr>,
         \<lparr>date = mar12, new_users = 0, paying_users = 1, payments_count = 1,
           revenue = 50, day_conversion = 0, day_avg_check = 50\<rparr>],
        \<lparr>start_date = mar10, end_date = mar12,
         total_new_users = 2, total_paying_users = 2, total_revenue = 150,
         conversion = 1, avg_check = Some 75\<rparr>)"
  unfolding compute_kpis_rows new_users_by_day_eq revenue_by_day_eq date_range_mar10_mar12
  by (simp add: kpi_eval)


lemma scenario_registered_twice:
  "compute_kpis users_twice [] mar10 mar12 =
   Inr ([\<lparr>date = mar10, new_users = 1, paying_users = 0, payments_count = 0,
           revenue = 0, day_conversion = 0, day_avg_check = 0\<rparr>,
         \<lparr>date = mar11, new_users = 1, paying_users = 0, payments_count = 0,
           revenue = 0, day_conversion = 0, day_avg_check = 0\<rparr>,
         \<lparr>date = mar12, new_users = 0, paying_users = 0, payments_count = 0,
           revenue = 0, day_conversion = 0, day_avg_check = 0\<rparr>],
        \<lparr>start_date = mar10, end_date = mar12,
         total_new_users = 2, total_paying_users = 0, total_revenue = 0,
         conversion = 0, avg_check = None\<rparr>)"
  unfolding compute_kpis_rows new_users_by_day_eq revenue_by_day_eq date_range_mar10_mar12
  by (simp add: kpi_eval)

lemmas window_eval =
  compute_date_range_def Timedelta_of_days_def Timestamp_minus_def in_bounds_def
  Timedelta_days_def

lemma window_of_scenario_A:
  "compute_date_range users_A payments_A None None 7 = Inr (mar06, mar12)"
  by (simp add: window_eval kpi_eval)

section \<open>The claims\<close>

subsection \<open>The period filter\<close>

text \<open>
  Claim C1 says that a user whose \<open>registered_at\<close> falls on the calendar date of the end
  of the period, at any time of day, passes the period filter of \<^verbatim>\<open>compute_kpis\<close>,
  and likewise a payment by its \<open>paid_at\<close>. The filter of the source compares the raw
  timestamp with the midnight of the end date, so a record of the end date later than
  00:00 is dropped. The theorem runs the code on a registration at 23:59 and a payment
  at 12:00 of 16 March: the period that \<^verbatim>\<open>compute_date_range\<close> infers from these very
  records is 10 to 16 March, both records have the date 16 March, and both are filtered
  out, leaving seven zero rows and empty totals. (In general, by \<open>users_period_end_day\<close>
  and \<open>payments_period_end_day\<close>, no record of the end date other than the one at
  midnight passes the filter.)
\<close>

theorem end_day_records_dropped:
  "user_date (hd users_late) = mar16 \<and> payment_date (hd payments_noon) = mar16 \<and>
   compute_date_range users_late payments_noon None None 7 = Inr (mar10, mar16) \<and>
   users_period users_late mar10 mar16 = [] \<and>
   payments_period payments_noon mar10 mar16 = [] \<and>
   (\<exists>daily_df summary.
      compute_kpis users_late payments_noon mar10 mar16 = Inr (daily_df, summary) \<and>
      map date daily_df = date_range mar10 mar16 \<and>
      map new_users daily_df = [0, 0, 0, 0, 0, 0, 0] \<and>
      map paying_users daily_df = [0, 0, 0, 0, 0, 0, 0] \<and>
      total_new_users summary = 0 \<and> total_paying_users summary = 0 \<and>
      total_revenue summary = 0 \<and> avg_check summary = None)"
proof -
  have "user_date (hd users_late) = mar16" "payment_date (hd payments_noon) = mar16"
    by (simp_all add: kpi_eval)
  moreover have "compute_date_range users_late payments_noon None None 7 = Inr (mar10, mar16)"
    by (simp add: window_eval kpi_eval)
  moreover have "users_period users_late mar10 mar16 = []"
    "payments_period payments_noon mar10 mar16 = []"
    by (simp_all add: kpi_eval)
  moreover have "\<exists>daily_df summary.
      compute_kpis users_late payments_noon mar10 mar16 = Inr (daily_df, summary) \<and>
      map date daily_df = date_range mar10 mar16 \<and>
      map new_users daily_df = [0, 0, 0, 0, 0, 0, 0] \<and>
      map paying_users daily_df = [0, 0, 0, 0, 0, 0, 0] \<and>
      total_new_users summary = 0 \<and> total_paying_users summary = 0 \<and>
      total_revenue summary = 0 \<and> avg_check summary = None"
    unfolding compute_kpis_rows new_users_by_day_eq revenue_by_day_eq date_range_mar10_mar16
    by (simp add: kpi_eval)
  ultimately show ?thesis
    by blast
qed

subsection \<open>The rows of the daily table\<close>

text \<open>
  Claim C2: for a period with \<open>start \<le> end\<close>, both at midnight, \<^verbatim>\<open>compute_kpis\<close>
  returns, and its daily table has \<open>(end - start).days + 1\<close> rows; the dates of the rows
  are \<open>start\<close>, \<open>start + 1 day\<close>, ... in this order, from \<open>start\<close> to \<open>end\<close>, strictly
  ascending and without duplicates, each a midnight; and a row on whose date no user and no payment of
  the filtered frames falls is the zero row of that date.
\<close>

theorem daily_rows_cover_period:
  assumes "start \<le> end'" and "normalize start = start" and "normalize end' = end'"
  shows "\<exists>daily_df summary.
     compute_kpis users payments start end' = Inr (daily_df, summary) \<and>
     int (length daily_df) = days (end' - start) + 1 \<and>
     map date daily_df = map (\<lambda>k. start + Timedelta_days (int k)) [0 ..< length daily_df] \<and>
     hd (map date daily_df) = start \<and> last (map date daily_df) = end' \<and>
     sorted_wrt (<) (map date daily_df) \<and> distinct (map date daily_df) \<and>
     (\<forall>row \<in> set daily_df. normalize (date row) = date row) \<and>
     (\<forall>row \<in> set daily_df.
        (\<forall>u \<in> set (users_period users start end'). user_date u \<noteq> date row) \<and>
        (\<forall>p \<in> set (payments_period payments start end'). payment_date p \<noteq> date row) \<longrightarrow>
        row = \<lparr>date = date row, new_users = 0, paying_users = 0, payments_count = 0,
                revenue = 0, day_conversion = 0, day_avg_check = 0\<rparr>)"
proof -
  obtain daily_df summary where
    res: "compute_kpis users payments start end' = Inr (daily_df, summary)"
    by (simp add: compute_kpis_rows)
  from res have dates: "map date daily_df = date_range start end'"
    by (rule compute_kpis_dates)
  then have len: "length daily_df = length (date_range start end')"
    by (metis length_map)
  have nonneg: "0 \<le> days (end' - start)"
    using assms(1) day_ns_pos by (simp add: days_def pos_imp_zdiv_nonneg_iff)
  have "int (length daily_df) = days (end' - start) + 1"
    using nonneg by (simp add: len length_date_range [OF assms(1)])
  moreover have "map date daily_df =
      map (\<lambda>k. start + Timedelta_days (int k)) [0 ..< length daily_df]"
    using date_range_eq_map [OF assms(1)] by (simp add: dates len)
  moreover have "hd (map date daily_df) = start"
    by (simp add: dates hd_date_range [OF assms(1)])
  moreover have "last (map date daily_df) = end'"
    by (simp add: dates last_date_range [OF assms])
  moreover have "sorted_wrt (<) (map date daily_df)"
    by (simp add: dates strict_sorted_date_range)
  moreover have "distinct (map date daily_df)"
    by (simp add: dates distinct_date_range)
  moreover have "\<forall>row \<in> set daily_df. normalize (date row) = date row"
  proof
    fix row
    assume "row \<in> set daily_df"
    then have "date row \<in> set (date_range start end')"
      using dates by (metis image_eqI set_map)
    then show "normalize (date row) = date row"
      by (rule date_range_normalized [OF assms(2)])
  qed
  moreover have "\<forall>row \<in> set daily_df.
        (\<forall>u \<in> set (users_period users start end'). user_date u \<noteq> date row) \<and>
        (\<forall>p \<in> set (payments_period payments start end'). payment_date p \<noteq> date row) \<longrightarrow>
        row = \<lparr>date = date row, new_users = 0, paying_users = 0, payments_count = 0,
                revenue = 0, day_conversion = 0, day_avg_check = 0\<rparr>"
    using res unfolding compute_kpis_rows
    by (auto simp: filter_date_empty nunique_Nil)
  ultimately show ?thesis
    using res by blast
qed

text \<open>
  The period 10 to 12 March with the data of scenario A: three rows, dated 10, 11 and
  12 March.
\<close>

theorem daily_rows_cover_period_witness:
  "mar10 \<le> mar12 \<and> normalize mar10 = mar10 \<and> normalize mar12 = mar12 \<and>
   (\<exists>daily_df summary.
      compute_kpis users_A payments_A mar10 mar12 = Inr (daily_df, summary) \<and>
      length daily_df = 3 \<and> map date daily_df = [mar10, mar11, mar12])"
proof -
  have h1: "mar10 \<le> mar12"
    by simp
  have h2: "normalize mar10 = mar10" and h3: "normalize mar12 = mar12"
    by (simp_all add: normalize_def day_ns_def)
  from daily_rows_cover_period [OF h1 h2 h3, of users_A payments_A]
  obtain daily_df summary where
    res: "compute_kpis users_A payments_A mar10 mar12 = Inr (daily_df, summary)" and
    len: "int (length daily_df) = days (mar12 - mar10) + 1" and
    dates: "map date daily_df =
      map (\<lambda>k. mar10 + Timedelta_days (int k)) [0 ..< length daily_df]"
    by blast
  from len have len3: "length daily_df = 3"
    by (simp add: days_def day_ns_def)
  from dates have "map date daily_df = [mar10, mar11, mar12]"
    by (simp add: len3 Timedelta_days_def day_ns_def upt_conv_Cons)
  with res len3 h1 h2 h3 show ?thesis
    by auto
qed

subsection \<open>Distinct counts: per day and for the period\<close>



text \<open>
  Claim C4: the sum of \<open>new_users\<close> over the rows of the daily table is the summary's
  \<open>total_new_users\<close>, exactly; each row's \<open>new_users\<close> is the number of distinct user ids
  among the users that pass the period filter and are registered in the 24 hours from
  the row's date. So the total is the sum, over the days of the period, of the per-day
  distinct counts, not a distinct count over the period, and a user id that is new on
  two days counts twice (the witness runs such an input, with registrations during the
  day). The period starts at a midnight.
\<close>

theorem total_new_users_is_daily_sum:
  assumes "start mod day_ns = 0"
  shows "\<exists>daily_df summary.
     compute_kpis users payments start end' = Inr (daily_df, summary) \<and>
     total_new_users summary = sum_list (map new_users daily_df) \<and>
     total_new_users summary =
       (\<Sum>d \<leftarrow> date_range start end'.
          card (user_id ` {u \<in> set users. start \<le> registered_at u \<and> registered_at u \<le> end' \<and>
                            d \<le> registered_at u \<and> registered_at u < d + day_ns})) \<and>
     (\<forall>row \<in> set daily_df.
        new_users row =
          card (user_id ` {u \<in> set users. start \<le> registered_at u \<and> registered_at u \<le> end' \<and>
                            date row \<le> registered_at u \<and> registered_at u < date row + day_ns}))"
proof -
  obtain daily_df summary where
    res: "compute_kpis users payments start end' = Inr (daily_df, summary)"
    by (simp add: compute_kpis_rows)
  have day: "nunique (map user_id (filter (\<lambda>u. user_date u = d) (users_period users start end'))) =
      card (user_id ` {u \<in> set users. start \<le> registered_at u \<and> registered_at u \<le> end' \<and>
                        d \<le> registered_at u \<and> registered_at u < d + day_ns})"
    if "d \<in> set (date_range start end')" for d
  proof -
    from that have "d mod day_ns = 0"
      by (rule date_range_midnights [OF assms])
    then show ?thesis
      by (simp add: nunique_card users_of_day [symmetric])
  qed
  from res have "total_new_users summary = sum_list (map new_users daily_df)"
    unfolding compute_kpis_rows by (auto simp: new_users_by_day_eq comp_def)
  moreover from res have "total_new_users summary =
      sum_list (map (\<lambda>d. nunique (map user_id
        (filter (\<lambda>u. user_date u = d) (users_period users start end')))) (date_range start end'))"
    unfolding compute_kpis_rows by (auto simp: new_users_by_day_eq)
  then have "total_new_users summary =
      (\<Sum>d \<leftarrow> date_range start end'.
         card (user_id ` {u \<in> set users. start \<le> registered_at u \<and> registered_at u \<le> end' \<and>
                           d \<le> registered_at u \<and> registered_at u < d + day_ns}))"
    using day by (simp cong: map_cong)
  moreover have "new_users row =
      card (user_id ` {u \<in> set users. start \<le> registered_at u \<and> registered_at u \<le> end' \<and>
                        date row \<le> registered_at u \<and> registered_at u < date row + day_ns})"
    if row: "row \<in> set daily_df" for row
  proof -
    from res have "map date daily_df = date_range start end'"
      by (rule compute_kpis_dates)
    with row have in_range: "date row \<in> set (date_range start end')"
      by (metis image_eqI set_map)
    from res row have "new_users row =
        nunique (map user_id (filter (\<lambda>u. user_date u = date row)
          (users_period users start end')))"
      unfolding compute_kpis_rows by auto
    then show ?thesis
      by (simp only: day [OF in_range])
  qed
  ultimately show ?thesis
    using res by blast
qed

text \<open>
  User id 101 is registered at 12:00 on 10 March and again at 12:00 on 11 March: one
  new user on each of the two days, the total is 2, the sum of the rows, while the
  period holds one distinct user id.
\<close>

theorem total_new_users_is_daily_sum_witness:
  "mar10 mod day_ns = 0 \<and>
   (\<exists>daily_df summary.
      compute_kpis users_twice [] mar10 mar12 = Inr (daily_df, summary) \<and>
      map date daily_df = [mar10, mar11, mar12] \<and>
      map new_users daily_df = [1, 1, 0] \<and>
      total_new_users summary = 2 \<and> sum_list (map new_users daily_df) = 2 \<and>
      card (user_id ` {u \<in> set users_twice.
                         mar10 \<le> registered_at u \<and> registered_at u \<le> mar12}) = 1)"
proof -
  have h: "mar10 mod day_ns = 0"
    by (simp add: day_ns_def)
  from total_new_users_is_daily_sum [OF h, of users_twice "[]" mar12]
  obtain daily_df summary where
    res: "compute_kpis users_twice [] mar10 mar12 = Inr (daily_df, summary)" and
    total: "total_new_users summary = sum_list (map new_users daily_df)"
    by blast
  from res have rows: "map date daily_df = [mar10, mar11, mar12]"
    "map new_users daily_df = [1, 1, 0]"
    by (auto simp: scenario_registered_twice)
  with total have "total_new_users summary = 2" "sum_list (map new_users daily_df) = 2"
    by simp_all
  moreover have "card (user_id ` {u \<in> set users_twice.
      mar10 \<le> registered_at u \<and> registered_at u \<le> mar12}) = 1"
    unfolding users_of_period [symmetric] by (simp add: users_period_def)
  ultimately show ?thesis
    using h res rows by auto
qed

subsection \<open>Average check and conversion\<close>

text \<open>
  Claim C5: when no payment passes the period filter, \<^verbatim>\<open>compute_kpis\<close> returns a
  summary whose \<open>avg_check\<close> is \<open>None\<close>, not \<open>0.0\<close>, while the \<open>avg_check\<close> of every
  daily row is \<open>0.0\<close>.
\<close>

theorem avg_check_none_vs_zero:
  assumes "payments_period payments start end' = []"
  shows "\<exists>daily_df summary.
     compute_kpis users payments start end' = Inr (daily_df, summary) \<and>
     avg_check summary = None \<and>
     (\<forall>row \<in> set daily_df. day_avg_check row = 0)"
  unfolding compute_kpis_rows using assms by auto

text \<open>
  The only payment is of 16 March, outside the period 10 to 12 March: three rows with
  average check 0, no average check for the period.
\<close>

theorem avg_check_none_vs_zero_witness:
  "payments_period payments_noon mar10 mar12 = [] \<and>
   (\<exists>daily_df summary.
      compute_kpis users_A payments_noon mar10 mar12 = Inr (daily_df, summary) \<and>
      map date daily_df = [mar10, mar11, mar12] \<and>
      avg_check summary = None \<and>
      (\<forall>row \<in> set daily_df. day_avg_check row = 0))"
proof -
  have h: "payments_period payments_noon mar10 mar12 = []"
    by (simp add: payments_period_def)
  from avg_check_none_vs_zero [OF h, of users_A]
  obtain daily_df summary where
    res: "compute_kpis users_A payments_noon mar10 mar12 = Inr (daily_df, summary)" and
    props: "avg_check summary = None" "\<forall>row \<in> set daily_df. day_avg_check row = 0"
    by blast
  from res have "map date daily_df = [mar10, mar11, mar12]"
    by (simp add: compute_kpis_dates date_range_mar10_mar12)
  with h res props show ?thesis
    by auto
qed

text \<open>
  Claim C6: no division by zero occurs in the conversion. In the model a division by
  zero is the result \<open>Inl ZeroDivision\<close>; \<^verbatim>\<open>compute_kpis\<close> always returns a table and
  a summary instead, where the conversion of a row is \<open>paying_users / new_users\<close> when
  \<open>new_users > 0\<close> and \<open>0.0\<close> otherwise, and the conversion of the period is
  \<open>total_paying_users / total_new_users\<close> when \<open>total_new_users > 0\<close> and \<open>0.0\<close>
  otherwise.
\<close>

theorem conversion_never_divides_by_zero:
  "\<exists>daily_df summary.
     compute_kpis users payments start end' = Inr (daily_df, summary) \<and>
     (\<forall>row \<in> set daily_df.
        day_conversion row =
          (if new_users row > 0 then real (paying_users row) / real (new_users row) else 0)) \<and>
     conversion summary =
       (if total_new_users summary > 0
        then real (total_paying_users summary) / real (total_new_users summary) else 0)"
  unfolding compute_kpis_rows by auto

text \<open>
  Scenario A, where 12 March has a paying user and no new user, and the variant with a
  single paying user among two new ones.
\<close>

theorem conversion_never_divides_by_zero_witness:
  "(\<exists>daily_df summary.
      compute_kpis users_A payments_A mar10 mar12 = Inr (daily_df, summary) \<and>
      map new_users daily_df = [1, 1, 0] \<and> map paying_users daily_df = [1, 0, 1] \<and>
      map day_conversion daily_df = [1, 0, 0] \<and>
      (\<forall>row \<in> set daily_df.
         day_conversion row =
           (if new_users row > 0 then real (paying_users row) / real (new_users row) else 0)) \<and>
      conversion summary = real (total_paying_users summary) / real (total_new_users summary) \<and>
      conversion summary = 1) \<and>
   (\<exists>daily_df summary.
      compute_kpis [] payments_A mar10 mar12 = Inr (daily_df, summary) \<and>
      total_new_users summary = 0 \<and> conversion summary = 0)"
proof -
  from conversion_never_divides_by_zero [of users_A payments_A mar10 mar12]
  obtain daily_df summary where
    res: "compute_kpis users_A payments_A mar10 mar12 = Inr (daily_df, summary)" and
    daily: "\<forall>row \<in> set daily_df.
        day_conversion row =
          (if new_users row > 0 then real (paying_users row) / real (new_users row) else 0)" and
    period: "conversion summary =
       (if total_new_users summary > 0
        then real (total_paying_users summary) / real (total_new_users summary) else 0)"
    by blast
  from res have run:
    "map new_users daily_df = [1, 1, 0]" "map paying_users daily_df = [1, 0, 1]"
    "map day_conversion daily_df = [1, 0, 0]" "total_new_users summary = 2"
    "conversion summary = 1"
    by (auto simp: scenario_A)
  from period run(4) have
    "conversion summary = real (total_paying_users summary) / real (total_new_users summary)"
    by simp
  with res daily run have first: "\<exists>daily_df summary.
      compute_kpis users_A payments_A mar10 mar12 = Inr (daily_df, summary) \<and>
      map new_users daily_df = [1, 1, 0] \<and> map paying_users daily_df = [1, 0, 1] \<and>
      map day_conversion daily_df = [1, 0, 0] \<and>
      (\<forall>row \<in> set daily_df.
         day_conversion row =
           (if new_users row > 0 then real (paying_users row) / real (new_users row) else 0)) \<and>
      conversion summary = real (total_paying_users summary) / real (total_new_users summary) \<and>
      conversion summary = 1"
    by auto
  from conversion_never_divides_by_zero [of "[]" payments_A mar10 mar12]
  obtain daily_df' summary' where
    res': "compute_kpis [] payments_A mar10 mar12 = Inr (daily_df', summary')" and
    period': "conversion summary' =
       (if total_new_users summary' > 0
        then real (total_paying_users summary') / real (total_new_users summary') else 0)"
    by blast
  from res' have "total_new_users summary' = 0"
    unfolding compute_kpis_rows new_users_by_day_eq by (auto simp: users_period_def nunique_Nil)
  with res' period' have "\<exists>daily_df summary.
      compute_kpis [] payments_A mar10 mar12 = Inr (daily_df, summary) \<and>
      total_new_users summary = 0 \<and> conversion summary = 0"
    by auto
  with first show ?thesis
    by auto
qed

subsection \<open>Period resolution\<close>



text \<open>
  Claim C8: period resolution fails with the "no data" error exactly when both frames
  are empty and the explicit period is not given in full; with both bounds given it
  returns these two timestamps normalized to midnight, whatever their order, also when
  both frames are empty.
\<close>

theorem no_data_error_iff:
  "(compute_date_range users payments start_opt end_opt window_days = Inl NoData \<longleftrightarrow>
      users = [] \<and> payments = [] \<and> (start_opt = None \<or> end_opt = None)) \<and>
   compute_date_range users payments (Some start) (Some end') window_days =
     Inr (normalize start, normalize end') \<and>
   compute_date_range [] [] (Some start) (Some end') window_days =
     Inr (normalize start, normalize end')"
proof -
  have explicit: "compute_date_range us ps (Some start) (Some end') window_days =
      Inr (normalize start, normalize end')" for us ps
    by (simp add: compute_date_range_def)
  have empty: "compute_date_range [] [] so eo window_days = Inl NoData"
    if "so = None \<or> eo = None" for so eo
    using that by (auto simp: compute_date_range_def split: option.splits)
  have "compute_date_range users payments start_opt end_opt window_days \<noteq> Inl NoData"
    if "users \<noteq> [] \<or> payments \<noteq> []"
  proof (cases "start_opt \<noteq> None \<and> end_opt \<noteq> None")
    case True
    then show ?thesis
      by (auto simp: compute_date_range_def)
  next
    case False
    then have "compute_date_range users payments start_opt end_opt window_days =
        compute_date_range users payments None None window_days"
      by (auto simp: compute_date_range_def split: option.splits)
    then show ?thesis
      by (simp add: compute_date_range_window [OF that])
  qed
  moreover have "compute_date_range users payments start_opt end_opt window_days \<noteq> Inl NoData"
    if "start_opt \<noteq> None \<and> end_opt \<noteq> None"
    using that by (auto simp: compute_date_range_def)
  ultimately show ?thesis
    using explicit empty by blast
qed

text \<open>
  No data and no period: the error. No data and the period 12 to 10 March (13:00 on the
  12th): the two midnights, in the order given. Data and no period: not this error.
\<close>

theorem no_data_error_iff_witness:
  "compute_date_range [] [] None None 7 = Inl NoData \<and>
   compute_date_range [] [] (Some (mar12 + 46800000000000)) (Some mar10) 7 = Inr (mar12, mar10) \<and>
   compute_date_range users_A [] None None 7 \<noteq> Inl NoData"
proof -
  from no_data_error_iff [of "[]" "[]" None None 7]
  have "compute_date_range [] [] None None 7 = Inl NoData"
    by simp
  moreover from no_data_error_iff
    [where users = "[]" and payments = "[]" and start_opt = None and end_opt = None and
       start = "mar12 + 46800000000000" and end' = mar10 and window_days = 7]
  have "compute_date_range [] [] (Some (mar12 + 46800000000000)) (Some mar10) 7 =
      Inr (mar12, mar10)"
    by (simp add: normalize_def day_ns_def)
  moreover from no_data_error_iff [of users_A "[]" None None 7]
  have "compute_date_range users_A [] None None 7 \<noteq> Inl NoData"
    by simp
  ultimately show ?thesis
    by blast
qed

text \<open>
  Claim C9: when exactly one of the two bounds is given, \<^verbatim>\<open>compute_date_range\<close>
  ignores it: the result is the one for no bound at all, the trailing window from the
  anchor or the "no data" error.
\<close>

theorem partial_explicit_bound_ignored:
  "compute_date_range users payments (Some start) None window_days =
     compute_date_range users payments None None window_days \<and>
   compute_date_range users payments None (Some end') window_days =
     compute_date_range users payments None None window_days"
  by (simp add: compute_date_range_def)

text \<open>
  With the data of scenario A a start of 10 March alone, or an end of 16 March alone,
  gives 6 to 12 March; with no data a start alone gives the error.
\<close>

theorem partial_explicit_bound_ignored_witness:
  "compute_date_range users_A payments_A (Some mar10) None 7 = Inr (mar06, mar12) \<and>
   compute_date_range users_A payments_A None (Some mar16) 7 = Inr (mar06, mar12) \<and>
   compute_date_range [] [] (Some mar10) None 7 = Inl NoData"
proof -
  have "compute_date_range [] [] None None 7 = Inl NoData"
    by (simp add: compute_date_range_def)
  then show ?thesis
    using partial_explicit_bound_ignored [of users_A payments_A mar10 7 mar16]
      partial_explicit_bound_ignored [of "[]" "[]" mar10 7 mar16]
    by (simp add: window_of_scenario_A)
qed

subsection \<open>An inverted period\<close>

text \<open>
  Claim C10: called with \<open>start > end\<close>, \<^verbatim>\<open>compute_kpis\<close> does not fail; it returns a
  daily table without rows and a summary with \<open>total_new_users = 0\<close>,
  \<open>total_paying_users = 0\<close>, \<open>total_revenue = 0.0\<close>, \<open>conversion = 0.0\<close> and
  \<open>avg_check = None\<close>.
\<close>

theorem inverted_period_is_empty:
  assumes "end' < start"
  shows "compute_kpis users payments start end' =
     Inr ([], \<lparr>start_date = start, end_date = end', total_new_users = 0,
               total_paying_users = 0, total_revenue = 0, conversion = 0, avg_check = None\<rparr>)"
proof -
  have "payments_period payments start end' = []"
    using assms by (auto simp: payments_period_def filter_empty_conv)
  then show ?thesis
    unfolding compute_kpis_rows
    by (simp add: date_range_empty [OF assms] new_users_by_day_eq revenue_by_day_eq nunique_Nil)
qed

text \<open>The data of scenario A with the period from 12 March back to 10 March.\<close>

theorem inverted_period_is_empty_witness:
  "mar10 < mar12 \<and>
   compute_kpis users_A payments_A mar12 mar10 =
     Inr ([], \<lparr>start_date = mar12, end_date = mar10, total_new_users = 0,
               total_paying_users = 0, total_revenue = 0, conversion = 0, avg_check = None\<rparr>)"
proof -
  have h: "mar10 < mar12"
    by simp
  from h inverted_period_is_empty [OF h, of users_A payments_A] show ?thesis
    by (rule conjI)
qed

end
